theory Spec2Isabelle
  imports Complex_Main
begin

section \<open>MeetingContext: the data of the provider\<close>

text \<open>
  The development embeds \<^verbatim>\<open>MeetingProvider\<close> (the React context that owns the recording
  session and the collection of stored meetings). Each \<^verbatim>\<open>useState\<close> cell is a field of
  one record, each callback is a function from the state before the call to the state
  after it, and each \<^verbatim>\<open>useEffect\<close> is a function applied when React would run it.
  Wall-clock reads (\<^verbatim>\<open>Date.now()\<close>, \<^verbatim>\<open>new Date()\<close>) and \<^verbatim>\<open>Math.random()\<close> are
  arguments.

  A callback made by \<^verbatim>\<open>useCallback\<close> sees two things. What it reads by name
  (\<^verbatim>\<open>recordingTime\<close>, \<^verbatim>\<open>currentMeeting\<close>, \<^verbatim>\<open>liveTranscript\<close>) is the value of the
  render that created it; those values are arguments of the callback here, so that a
  call through the callback of an earlier render can be expressed. What it does through
  a functional update (\<^verbatim>\<open>setX(prev => ...)\<close>) acts on the state at the time of the
  call, which is the state argument.

  Strings are lists of code units; the accented letters of the source are written by
  their code (all below 256).
\<close>

abbreviation a_acute :: char where "a_acute \<equiv> CHR 0xE1"
abbreviation e_acute :: char where "e_acute \<equiv> CHR 0xE9"
abbreviation i_acute :: char where "i_acute \<equiv> CHR 0xED"
abbreviation o_acute :: char where "o_acute \<equiv> CHR 0xF3"

text \<open>
  A transcript line is an open JavaScript object: \<^verbatim>\<open>addTranscriptLine\<close> spreads whatever
  the caller passed. It is a finite map from field names to values.
\<close>

datatype jsval = Num nat | Str string

type_synonym line = "string \<rightharpoonup> jsval"

record participant =
  pid :: nat
  name :: string
  avatar :: string
  speaking :: bool

record node =
  nid :: nat
  label :: string
  position :: "nat \<times> nat"

record mind_map =
  centralTopic :: string
  nodes :: "node list"

record action_item =
  task :: string
  assignee :: string
  deadline :: string

record analysis_payload =
  mindMap :: mind_map
  summary :: string
  keyPoints :: "string list"
  actionItems :: "action_item list"

text \<open>
  One record serves the meeting in progress and the stored meeting: the fields that
  \<^verbatim>\<open>stopRecording\<close> and \<^verbatim>\<open>generateAnalysis\<close> add later are absent (\<open>None\<close>) until
  then, as they are \<^verbatim>\<open>undefined\<close> in the object. Times are milliseconds since the
  epoch; the ISO string the source stores is read back by \<^verbatim>\<open>new Date\<close> to the same
  instant.
\<close>

record meeting =
  mid :: string
  title :: string
  startTime :: nat
  status :: string
  mparticipants :: "participant list"
  endTime :: "nat option"
  duration :: "nat option"
  transcript :: "line list option"
  createdAt :: "nat option"
  analysis :: "analysis_payload option"

record config =
  cfg_title :: "string option"
  cfg_participants :: "participant list option"

text \<open>
  The content of the entry \<^verbatim>\<open>mindmeet-meetings\<close> of \<^verbatim>\<open>localStorage\<close>: a string on
  which \<^verbatim>\<open>JSON.parse\<close> throws, or the serialisation of a list of meetings
  (\<^verbatim>\<open>JSON.stringify\<close> and \<^verbatim>\<open>JSON.parse\<close> are kept abstract: the entry holds the
  list itself).
\<close>

datatype stored = Unparsable | Json "meeting list"

text \<open>
  The six state cells of the provider, and what the browser holds for it: the storage
  entry (\<open>None\<close> while the key is absent), the pending 3000 ms timeouts that
  \<^verbatim>\<open>stopRecording\<close> has set, by meeting id, oldest first, and the 1000 ms interval of
  the recording timer: \<open>None\<close> while no interval exists, otherwise the milliseconds
  since it was created or last fired.
\<close>

record provider_state =
  meetings :: "meeting list"
  currentMeeting :: "meeting option"
  isRecording :: bool
  recordingTime :: nat
  liveTranscript :: "line list"
  participants :: "participant list"
  storage :: "stored option"
  timers :: "string list"
  interval :: "nat option"

text \<open>The provider at its first render, over a given storage entry.\<close>

definition initial_state :: "stored option \<Rightarrow> provider_state" where
  "initial_state st =
     \<lparr>meetings = [], currentMeeting = None, isRecording = False, recordingTime = 0,
      liveTranscript = [], participants = [], storage = st, timers = [], interval = None\<rparr>"

section \<open>The callbacks\<close>

text \<open>Decimal digits of a number, as string concatenation with a number produces them.\<close>

fun show_nat :: "nat \<Rightarrow> string" where
  "show_nat n =
     (if n < 10 then [char_of (48 + n)]
      else show_nat (n div 10) @ [char_of (48 + n mod 10)])"

declare show_nat.simps [simp del]

definition defaultParticipants :: "participant list" where
  "defaultParticipants =
     [\<lparr>pid = 1, name = ''Mar'' @ [i_acute] @ ''a Jim'' @ [e_acute] @ ''nez'',
       avatar = ''MJ'', speaking = False\<rparr>,
      \<lparr>pid = 2, name = ''Brayan Bar'' @ [o_acute] @ ''n'', avatar = ''BB'', speaking = False\<rparr>,
      \<lparr>pid = 3, name = ''Jos'' @ [e_acute] @ '' Egurrola'', avatar = ''JE'',
       speaking = False\<rparr>]"

definition defaultTitle :: string where
  "defaultTitle = ''Nueva Reuni'' @ [o_acute] @ ''n''"

text \<open>
  \<^verbatim>\<open>startRecording(config)\<close>. \<open>idNow\<close> is the value of \<^verbatim>\<open>Date.now()\<close>, \<open>startNow\<close>
  the instant of \<^verbatim>\<open>new Date()\<close>. \<^verbatim>\<open>config.title || d\<close> takes the default for a missing
  and for an empty title; an array is never falsy, so a given participant list is kept
  even when empty. The source has no test of the current session and no \<^verbatim>\<open>throw\<close>.
\<close>

definition startRecording ::
  "config \<Rightarrow> nat \<Rightarrow> nat \<Rightarrow> provider_state \<Rightarrow> meeting \<times> provider_state" where
  "startRecording config idNow startNow s =
     (let newMeeting =
        \<lparr>mid = ''meeting_'' @ show_nat idNow,
         title = (case cfg_title config of
                    None \<Rightarrow> defaultTitle
                  | Some t \<Rightarrow> if t = [] then defaultTitle else t),
         startTime = startNow,
         status = ''recording'',
         mparticipants = (case cfg_participants config of
                            None \<Rightarrow> defaultParticipants
                          | Some ps \<Rightarrow> ps),
         endTime = None, duration = None, transcript = None, createdAt = None,
         analysis = None\<rparr>
      in (newMeeting,
          s\<lparr>currentMeeting := Some newMeeting,
            isRecording := True,
            recordingTime := 0,
            liveTranscript := [],
            participants := mparticipants newMeeting\<rparr>))"

definition pauseRecording :: "provider_state \<Rightarrow> provider_state" where
  "pauseRecording s = s\<lparr>isRecording := False\<rparr>"

definition resumeRecording :: "provider_state \<Rightarrow> provider_state" where
  "resumeRecording s = s\<lparr>isRecording := True\<rparr>"

text \<open>
  \<^verbatim>\<open>stopRecording()\<close>, with dependencies \<^verbatim>\<open>[currentMeeting, recordingTime,
  liveTranscript]\<close>: the three are read from the closure and are the arguments
  \<open>capturedMeeting\<close>, \<open>capturedTime\<close> and \<open>capturedTranscript\<close>. \<^verbatim>\<open>null\<close> and no change
  when the captured meeting is \<^verbatim>\<open>null\<close>. The insertion into \<^verbatim>\<open>meetings\<close> is a functional
  update, the other setters take constants. \<open>endNow\<close> and \<open>createdNow\<close> are the two reads
  of the wall clock. The timeout it sets is recorded in \<open>timers\<close>.
\<close>

definition stopRecording ::
  "meeting option \<Rightarrow> nat \<Rightarrow> line list \<Rightarrow> nat \<Rightarrow> nat \<Rightarrow> provider_state \<Rightarrow>
   meeting option \<times> provider_state" where
  "stopRecording capturedMeeting capturedTime capturedTranscript endNow createdNow s =
     (case capturedMeeting of
        None \<Rightarrow> (None, s)
      | Some cur \<Rightarrow>
          (let completedMeeting =
             cur\<lparr>endTime := Some endNow,
                 duration := Some capturedTime,
                 status := ''processing'',
                 transcript := Some capturedTranscript,
                 createdAt := Some createdNow\<rparr>
           in (Some completedMeeting,
               s\<lparr>meetings := completedMeeting # meetings s,
                 currentMeeting := None,
                 isRecording := False,
                 recordingTime := 0,
                 liveTranscript := [],
                 participants := [],
                 timers := timers s @ [mid completedMeeting]\<rparr>)))"

text \<open>The call through the callback of the latest render: the closure is the state.\<close>

definition latest_stopRecording ::
  "nat \<Rightarrow> nat \<Rightarrow> provider_state \<Rightarrow> meeting option \<times> provider_state" where
  "latest_stopRecording endNow createdNow s =
     stopRecording (currentMeeting s) (recordingTime s) (liveTranscript s) endNow createdNow s"

text \<open>
  \<^verbatim>\<open>addTranscriptLine(line)\<close>, with dependencies \<^verbatim>\<open>[recordingTime]\<close>: the spread of the
  caller's object, then \<^verbatim>\<open>id\<close> and \<^verbatim>\<open>time\<close>, which therefore win over fields of the
  same name. \<^verbatim>\<open>time\<close> is the \<^verbatim>\<open>recordingTime\<close> of the closure, the argument
  \<open>capturedTime\<close>; the append is a functional update. No test of the session.
\<close>

definition addTranscriptLine ::
  "nat \<Rightarrow> line \<Rightarrow> nat \<Rightarrow> provider_state \<Rightarrow> provider_state" where
  "addTranscriptLine capturedTime obj now s =
     s\<lparr>liveTranscript :=
         liveTranscript s @ [obj(''id'' \<mapsto> Num now, ''time'' \<mapsto> Num capturedTime)]\<rparr>"

definition latest_addTranscriptLine :: "line \<Rightarrow> nat \<Rightarrow> provider_state \<Rightarrow> provider_state" where
  "latest_addTranscriptLine obj now s = addTranscriptLine (recordingTime s) obj now s"

definition updateMeetingStatus :: "string \<Rightarrow> string \<Rightarrow> provider_state \<Rightarrow> provider_state" where
  "updateMeetingStatus meetingId st s =
     s\<lparr>meetings :=
         map (\<lambda>m. if mid m = meetingId then m\<lparr>status := st\<rparr> else m) (meetings s)\<rparr>"

text \<open>\<^verbatim>\<open>getMeetingById\<close> searches the \<^verbatim>\<open>meetings\<close> of its closure.\<close>

definition getMeetingById :: "meeting list \<Rightarrow> string \<Rightarrow> meeting option" where
  "getMeetingById capturedMeetings meetingId =
     find (\<lambda>m. mid m = meetingId) capturedMeetings"

definition deleteMeeting :: "string \<Rightarrow> provider_state \<Rightarrow> provider_state" where
  "deleteMeeting meetingId s =
     s\<lparr>meetings := filter (\<lambda>m. mid m \<noteq> meetingId) (meetings s)\<rparr>"

definition analysisResult :: analysis_payload where
  "analysisResult =
     \<lparr>mindMap =
        \<lparr>centralTopic = ''Proyecto MindMeet'',
         nodes =
           [\<lparr>nid = 1, label = ''Transcripci'' @ [o_acute] @ ''n IA'', position = (20, 20)\<rparr>,
            \<lparr>nid = 2, label = ''Mapas Mentales'', position = (80, 20)\<rparr>,
            \<lparr>nid = 3, label = ''Integraciones'', position = (20, 80)\<rparr>,
            \<lparr>nid = 4, label = ''Demo Deloitte'', position = (80, 80)\<rparr>]\<rparr>,
      summary = ''Reuni'' @ [o_acute] @
        ''n sobre el progreso del proyecto MindMeet para Deloitte Colombia.'',
      keyPoints =
        [''M'' @ [o_acute] @ ''dulo de transcripci'' @ [o_acute] @
           ''n completado con 94% de precisi'' @ [o_acute] @ ''n'',
         ''Algoritmo de mapas mentales funcionando correctamente'',
         ''Preparaci'' @ [o_acute] @ ''n de demo para cliente''],
      actionItems =
        [\<lparr>task = ''Finalizar integraciones'', assignee = ''Brayan'',
          deadline = ''2025-03-25''\<rparr>,
         \<lparr>task = ''Preparar presentaci'' @ [o_acute] @ ''n'',
          assignee = ''Mar'' @ [i_acute] @ ''a'', deadline = ''2025-03-24''\<rparr>]\<rparr>"

text \<open>
  \<^verbatim>\<open>generateAnalysis(meetingId)\<close>, at the moment its 2000 ms wait is over: the
  functional update of \<^verbatim>\<open>meetings\<close> and the value the promise resolves to.
\<close>

definition generateAnalysis ::
  "string \<Rightarrow> provider_state \<Rightarrow> analysis_payload \<times> provider_state" where
  "generateAnalysis meetingId s =
     (analysisResult,
      s\<lparr>meetings :=
          map (\<lambda>m. if mid m = meetingId then m\<lparr>analysis := Some analysisResult\<rparr> else m)
            (meetings s)\<rparr>)"

section \<open>The effects\<close>

text \<open>
  The effect of the mount: it reads the storage entry once. An absent or empty entry is
  skipped, an entry that does not parse is logged and skipped.
\<close>

definition loadEffect :: "provider_state \<Rightarrow> provider_state" where
  "loadEffect s =
     (case storage s of
        None \<Rightarrow> s
      | Some Unparsable \<Rightarrow> s
      | Some (Json parsed) \<Rightarrow> s\<lparr>meetings := parsed\<rparr>)"

text \<open>
  The effect on \<^verbatim>\<open>[meetings]\<close>: it writes the collection only when it is not empty.
\<close>

definition persistEffect :: "provider_state \<Rightarrow> provider_state" where
  "persistEffect s =
     (if length (meetings s) > 0 then s\<lparr>storage := Some (Json (meetings s))\<rparr> else s)"

text \<open>
  A page load over a given storage entry: the first render, the load, and the effect on
  \<^verbatim>\<open>[meetings]\<close> of the render that follows the load.
\<close>

definition mount :: "stored option \<Rightarrow> provider_state" where
  "mount st = persistEffect (loadEffect (initial_state st))"

text \<open>
  The effect on \<^verbatim>\<open>[isRecording]\<close>, after a render whose state is \<open>s\<close>, the state of the
  render before being \<open>before\<close>. It runs only when \<^verbatim>\<open>isRecording\<close> has changed: the
  interval of the render before is cleared, and a new one is created when
  \<^verbatim>\<open>isRecording\<close> holds. When \<^verbatim>\<open>isRecording\<close> has not changed, an interval that exists
  goes on as it is.
\<close>

definition timerEffect :: "provider_state \<Rightarrow> provider_state \<Rightarrow> provider_state" where
  "timerEffect before s =
     (if isRecording s = isRecording before then s
      else s\<lparr>interval := (if isRecording s then Some 0 else None)\<rparr>)"

text \<open>
  \<open>d\<close> milliseconds pass. An interval that exists fires each time 1000 ms are full
  (the timer of the browser is taken to be exact), and each firing is
  \<^verbatim>\<open>setRecordingTime(prev => prev + 1)\<close>.
\<close>

definition elapse :: "nat \<Rightarrow> provider_state \<Rightarrow> provider_state" where
  "elapse d s =
     (case interval s of
        None \<Rightarrow> s
      | Some p \<Rightarrow>
          s\<lparr>recordingTime := recordingTime s + (p + d) div 1000,
            interval := Some ((p + d) mod 1000)\<rparr>)"

text \<open>
  One firing of the 1000 ms interval, seen from the state cells alone: once the effect on
  \<^verbatim>\<open>[isRecording]\<close> has run, the interval exists only while \<^verbatim>\<open>isRecording\<close> holds, so a
  second that passes otherwise changes nothing.
\<close>

definition tick :: "provider_state \<Rightarrow> provider_state" where
  "tick s = (if isRecording s then s\<lparr>recordingTime := recordingTime s + 1\<rparr> else s)"

text \<open>
  One firing of the 3000 ms interval of the speaking simulation; \<open>draws i\<close> is the
  value of \<^verbatim>\<open>Math.random()\<close> for the participant at position \<open>i\<close>.
\<close>

definition speakingTick :: "(nat \<Rightarrow> real) \<Rightarrow> provider_state \<Rightarrow> provider_state" where
  "speakingTick draws s =
     (if \<not> isRecording s \<or> length (participants s) = 0 then s
      else s\<lparr>participants :=
               map (\<lambda>(i, p). p\<lparr>speaking := (draws i > 7 / 10)\<rparr>)
                 (enumerate 0 (participants s))\<rparr>)"

text \<open>The oldest pending timeout of \<^verbatim>\<open>stopRecording\<close> fires.\<close>

definition timeoutFires :: "provider_state \<Rightarrow> provider_state" where
  "timeoutFires s =
     (case timers s of
        [] \<Rightarrow> s
      | meetingId # rest \<Rightarrow>
          persistEffect (updateMeetingStatus meetingId ''completed'' (s\<lparr>timers := rest\<rparr>)))"

section \<open>Runs of the provider\<close>

text \<open>
  What can happen to the provider, one event at a time. A callback that calls
  \<^verbatim>\<open>setMeetings\<close> is followed by the effect on \<^verbatim>\<open>[meetings]\<close>, since \<^verbatim>\<open>map\<close>,
  \<^verbatim>\<open>filter\<close> and the array literal always make a new array; a callback that sets
  \<^verbatim>\<open>isRecording\<close> is followed by the effect on \<^verbatim>\<open>[isRecording]\<close>. \<open>Stop\<close> and
  \<open>AddLine\<close> are calls through the callback of the latest render; \<open>StopOld\<close> and
  \<open>AddLineOld\<close> are calls through a callback of an earlier render and carry what that
  render had captured. The firings of the speaking simulation and of the timeouts are
  events of their own.
\<close>

datatype event =
    Start config nat nat
  | Pause
  | Resume
  | Stop nat nat
  | StopOld "meeting option" nat "line list" nat nat
  | AddLine line nat
  | AddLineOld nat line nat
  | SetStatus string string
  | Delete string
  | Analyse string
  | Elapse nat
  | SpeakTick "nat \<Rightarrow> real"
  | Timeout

definition after_stop ::
  "meeting option \<Rightarrow> nat \<Rightarrow> line list \<Rightarrow> nat \<Rightarrow> nat \<Rightarrow> provider_state \<Rightarrow> provider_state"
  where
  "after_stop capturedMeeting capturedTime capturedTranscript e c s =
     (case capturedMeeting of
        None \<Rightarrow> s
      | Some _ \<Rightarrow>
          timerEffect s
            (persistEffect
               (snd (stopRecording capturedMeeting capturedTime capturedTranscript e c s))))"

fun step :: "event \<Rightarrow> provider_state \<Rightarrow> provider_state" where
  "step (Start c i t) s = timerEffect s (snd (startRecording c i t s))"
| "step Pause s = timerEffect s (pauseRecording s)"
| "step Resume s = timerEffect s (resumeRecording s)"
| "step (Stop e c) s =
     after_stop (currentMeeting s) (recordingTime s) (liveTranscript s) e c s"
| "step (StopOld cm rt lt e c) s = after_stop cm rt lt e c s"
| "step (AddLine obj now) s = latest_addTranscriptLine obj now s"
| "step (AddLineOld rt obj now) s = addTranscriptLine rt obj now s"
| "step (SetStatus i st) s = persistEffect (updateMeetingStatus i st s)"
| "step (Delete i) s = persistEffect (deleteMeeting i s)"
| "step (Analyse i) s = persistEffect (snd (generateAnalysis i s))"
| "step (Elapse d) s = elapse d s"
| "step (SpeakTick d) s = speakingTick d s"
| "step Timeout s = timeoutFires s"

fun run :: "event list \<Rightarrow> provider_state \<Rightarrow> provider_state" where
  "run [] s = s"
| "run (e # es) s = run es (step e s)"

section \<open>Statistics\<close>

text \<open>
  The \<^verbatim>\<open>stats\<close> object of a render. \<open>getMonth\<close> and \<open>getFullYear\<close> are the methods of
  \<^verbatim>\<open>Date\<close> in the local time zone of the browser, as functions of the instant; \<open>now\<close>
  is the instant of \<^verbatim>\<open>new Date()\<close> during the render. A meeting without
  \<^verbatim>\<open>createdAt\<close> gives an invalid date, whose month is \<^verbatim>\<open>NaN\<close> and equals nothing;
  \<^verbatim>\<open>m.duration || 0\<close> is 0 for a missing duration and for the duration 0.
\<close>

record meeting_stats =
  total :: nat
  thisMonth :: nat
  completed :: nat
  totalDuration :: nat

definition stats ::
  "(nat \<Rightarrow> nat) \<Rightarrow> (nat \<Rightarrow> int) \<Rightarrow> nat \<Rightarrow> meeting list \<Rightarrow> meeting_stats" where
  "stats getMonth getFullYear now ms =
     \<lparr>total = length ms,
      thisMonth =
        length (filter (\<lambda>m. case createdAt m of
                               None \<Rightarrow> False
                             | Some c \<Rightarrow> getMonth c = getMonth now \<and>
                                         getFullYear c = getFullYear now) ms),
      completed = length (filter (\<lambda>m. status m = ''completed'') ms),
      totalDuration =
        foldl (\<lambda>acc m. acc + (case duration m of
                                 None \<Rightarrow> 0
                               | Some d \<Rightarrow> if d = 0 then 0 else d)) 0 ms\<rparr>"

section \<open>Reference notions for the properties\<close>

text \<open>
  The events of one session: everything but starting and stopping.
\<close>

fun session_event :: "event \<Rightarrow> bool" where
  "session_event (Start c i t) = False"
| "session_event (Stop e c) = False"
| "session_event (StopOld cm rt lt e c) = False"
| "session_event _ = True"

text \<open>An event that is not a transcript call through a callback of an earlier render.\<close>

fun latest_call :: "event \<Rightarrow> bool" where
  "latest_call (AddLineOld rt obj now) = False"
| "latest_call _ = True"

text \<open>
  The milliseconds a session spends recording, read off the events alone: time that
  passes counts when the last of \<open>Pause\<close> and \<open>Resume\<close> before it was \<open>Resume\<close>
  (\<open>r\<close> says whether the session records at the beginning).
\<close>

fun recording_ms :: "bool \<Rightarrow> event list \<Rightarrow> nat" where
  "recording_ms r [] = 0"
| "recording_ms r (Pause # es) = recording_ms False es"
| "recording_ms r (Resume # es) = recording_ms True es"
| "recording_ms r (Elapse d # es) = (if r then d else 0) + recording_ms r es"
| "recording_ms r (e # es) = recording_ms r es"

text \<open>
  The whole seconds of the stretches of recording, stretch by stretch. A stretch goes
  from a resume (or the start) to the next pause (or the end); \<open>Some p\<close> says that a
  stretch is open and \<open>p\<close> ms long so far, \<open>None\<close> that the session is paused. Each
  stretch contributes its length divided by 1000, rounded down.
\<close>

fun stretch_seconds :: "nat option \<Rightarrow> event list \<Rightarrow> nat" where
  "stretch_seconds st [] = (case st of None \<Rightarrow> 0 | Some p \<Rightarrow> p div 1000)"
| "stretch_seconds st (Pause # es) =
     (case st of None \<Rightarrow> 0 | Some p \<Rightarrow> p div 1000) + stretch_seconds None es"
| "stretch_seconds st (Resume # es) =
     stretch_seconds (case st of None \<Rightarrow> Some 0 | Some p \<Rightarrow> Some p) es"
| "stretch_seconds st (Elapse d # es) =
     stretch_seconds (case st of None \<Rightarrow> None | Some p \<Rightarrow> Some (p + d)) es"
| "stretch_seconds st (e # es) = stretch_seconds st es"

text \<open>The objects passed to \<open>addTranscriptLine\<close>, in the order of the calls.\<close>

fun added_lines :: "event list \<Rightarrow> line list" where
  "added_lines [] = []"
| "added_lines (AddLine obj now # es) = obj # added_lines es"
| "added_lines (AddLineOld rt obj now # es) = obj # added_lines es"
| "added_lines (e # es) = added_lines es"

text \<open>The \<^verbatim>\<open>time\<close> field of a line, when it is there and a number.\<close>

definition line_time :: "line \<Rightarrow> nat option" where
  "line_time l = (case l ''time'' of Some (Num n) \<Rightarrow> Some n | _ \<Rightarrow> None)"

text \<open>A line without the two fields that \<open>addTranscriptLine\<close> sets.\<close>

definition caller_fields :: "line \<Rightarrow> line" where
  "caller_fields obj = obj(''id'' := None, ''time'' := None)"

text \<open>
  The interval and the flag agree, as they do once the effect on \<^verbatim>\<open>[isRecording]\<close> has
  run: an interval exists exactly while \<^verbatim>\<open>isRecording\<close> holds, and less than a second
  has passed since it fired.
\<close>

definition timer_ok :: "provider_state \<Rightarrow> bool" where
  "timer_ok s =
     (case interval s of None \<Rightarrow> \<not> isRecording s | Some p \<Rightarrow> isRecording s \<and> p < 1000)"

text \<open>
  The stamps of the live transcript are numbers, in order, and none is beyond the elapsed
  seconds.
\<close>

definition stamps_ok :: "provider_state \<Rightarrow> bool" where
  "stamps_ok s =
     (\<exists>ts. map line_time (liveTranscript s) = map Some ts \<and> sorted ts \<and>
           (\<forall>x \<in> set ts. x \<le> recordingTime s))"

section \<open>Concrete runs\<close>

definition standup_config :: config where
  "standup_config = \<lparr>cfg_title = Some ''Standup'', cfg_participants = None\<rparr>"

definition hi_line :: line where
  "hi_line = [''speaker'' \<mapsto> Str ''A'', ''text'' \<mapsto> Str ''hi'']"

text \<open>A line whose caller also supplies \<^verbatim>\<open>timestamp\<close>, \<^verbatim>\<open>id\<close> and \<^verbatim>\<open>time\<close>.\<close>

definition caller_line :: line where
  "caller_line =
     [''speaker'' \<mapsto> Str ''B'', ''text'' \<mapsto> Str ''hello'', ''timestamp'' \<mapsto> Num 99,
      ''id'' \<mapsto> Num 7, ''time'' \<mapsto> Num 42]"

text \<open>The render that follows a start on a fresh page: nothing has elapsed yet.\<close>

definition started_example :: provider_state where
  "started_example = step (Start standup_config 1000 1000) (initial_state None)"

text \<open>The same session two seconds into its recording, with one line.\<close>

definition recording_example :: provider_state where
  "recording_example = run [AddLine hi_line 1500, Elapse 2000] started_example"

text \<open>One stored meeting, no session.\<close>

definition stored_example :: provider_state where
  "stored_example =
     run [Start standup_config 1000 1000, Elapse 1000, Stop 3000 3000] (initial_state None)"

text \<open>Two stored meetings, no session.\<close>

definition two_stored_example :: provider_state where
  "two_stored_example =
     run [Start standup_config 5000 5000, Elapse 1000, Stop 7000 7000] stored_example"

text \<open>
  A session started in the millisecond in which the stored meeting had been started.
\<close>

definition restarted_example :: provider_state where
  "restarted_example =
     run [Start standup_config 1000 1000, Stop 2000 2000, Start standup_config 1000 1000]
       (initial_state None)"

text \<open>
  The events of a session with a pause of two seconds: three seconds of recording, lines
  at the seconds 0, 2 and 3, every call through the callback of the latest render.
\<close>

definition session_example :: "event list" where
  "session_example =
     [AddLine hi_line 1500, Elapse 1000, SpeakTick (\<lambda>k. 1 / 2), Elapse 1000, Pause,
      Elapse 1000, AddLine caller_line 5000, Elapse 1000, Resume, Elapse 1000,
      AddLine hi_line 7000]"

text \<open>
  The events of a session that records three times 900 ms, with a pause after each of the
  first two stretches.
\<close>

definition interrupted_example :: "event list" where
  "interrupted_example =
     [Elapse 900, Pause, Resume, Elapse 900, Pause, Resume, Elapse 900]"

text \<open>
  The events of a session whose third line is added through the callback of the render
  that followed the start.
\<close>

definition old_callback_example :: "event list" where
  "old_callback_example =
     [AddLine hi_line 1500, Elapse 2000, AddLine caller_line 5000, AddLineOld 0 hi_line 7000]"

section \<open>Auxiliary facts\<close>

lemmas callback_defs =
  startRecording_def pauseRecording_def resumeRecording_def stopRecording_def
  latest_stopRecording_def addTranscriptLine_def latest_addTranscriptLine_def
  updateMeetingStatus_def deleteMeeting_def generateAnalysis_def
  loadEffect_def persistEffect_def mount_def timerEffect_def elapse_def tick_def
  speakingTick_def timeoutFires_def after_stop_def

lemmas example_defs =
  started_example_def recording_example_def stored_example_def two_stored_example_def
  restarted_example_def initial_state_def standup_config_def hi_line_def caller_line_def
  session_example_def interrupted_example_def old_callback_example_def

lemma show_nat_1000: "show_nat 1000 = ''1000''"
  by code_simp

lemma digit_0: "char_of (48::nat) = CHR ''0''"
  by code_simp

lemma digit_5: "char_of (53::nat) = CHR ''5''"
  by code_simp

lemma show_nat_5000: "show_nat 5000 = ''5000''"
  by (simp add: show_nat.simps [of 5000] show_nat.simps [of 500] show_nat.simps [of 50]
      show_nat.simps [of 5] digit_0 digit_5)

text \<open>What an event of a session does to the cells of the session.\<close>

lemma step_session_current:
  "session_event e \<Longrightarrow> currentMeeting (step e s) = currentMeeting s"
  by (cases e) (simp_all add: callback_defs split: list.splits option.splits)

lemma run_session_current:
  "list_all session_event evs \<Longrightarrow> currentMeeting (run evs s) = currentMeeting s"
proof (induction evs arbitrary: s)
  case Nil
  then show ?case by simp
next
  case (Cons e evs)
  then show ?case using step_session_current [of e s] by simp
qed

text \<open>Whole seconds and remainder of a sum of milliseconds.\<close>

lemma div_split_1000: "(p + d) div 1000 = p div 1000 + (p mod 1000 + d) div (1000::nat)"
proof -
  have "(1000 * (p div 1000) + (p mod 1000 + d)) div 1000 =
        p div 1000 + (p mod 1000 + d) div (1000::nat)"
    by (rule div_mult_self4) simp
  moreover have "1000 * (p div 1000) + (p mod 1000 + d) = p + d"
    using mult_div_mod_eq [of 1000 p] by linarith
  ultimately show ?thesis by (simp only:)
qed

lemma mod_split_1000: "(p + d) mod 1000 = (p mod 1000 + d) mod (1000::nat)"
  by (simp add: mod_add_left_eq)

text \<open>A stretch of \<open>p\<close> ms counts as its whole seconds plus what its remainder becomes.\<close>

lemma stretch_seconds_split:
  "stretch_seconds (Some p) evs = p div 1000 + stretch_seconds (Some (p mod 1000)) evs"
proof (induction evs arbitrary: p)
  case Nil
  show ?case by simp
next
  case (Cons e evs)
  show ?case
  proof (cases e)
    case (Elapse d)
    have "stretch_seconds (Some (p + d)) evs =
          (p + d) div 1000 + stretch_seconds (Some ((p + d) mod 1000)) evs"
      by (rule Cons.IH)
    moreover have "stretch_seconds (Some (p mod 1000 + d)) evs =
          (p mod 1000 + d) div 1000 + stretch_seconds (Some ((p mod 1000 + d) mod 1000)) evs"
      by (rule Cons.IH)
    ultimately show ?thesis
      using Elapse div_split_1000 [of p d] mod_split_1000 [of p d] by simp
  qed (use Cons.IH [of p] in simp_all)
qed

lemma step_session_timer:
  "session_event e \<Longrightarrow> timer_ok s \<Longrightarrow>
   timer_ok (step e s) \<and>
   recordingTime (step e s) + stretch_seconds (interval (step e s)) evs =
     recordingTime s + stretch_seconds (interval s) (e # evs)"
proof (cases e)
  case (Elapse d)
  assume "timer_ok s"
  then show ?thesis
    using Elapse stretch_seconds_split [of "p + d" evs for p]
    by (auto simp: timer_ok_def elapse_def split: option.splits)
qed (auto simp: timer_ok_def callback_defs split: option.splits list.splits)

lemma run_session_time:
  "list_all session_event evs \<Longrightarrow> timer_ok s \<Longrightarrow>
   recordingTime (run evs s) = recordingTime s + stretch_seconds (interval s) evs"
proof (induction evs arbitrary: s)
  case Nil
  then show ?case by (auto simp: timer_ok_def split: option.splits)
next
  case (Cons e evs)
  then have e: "session_event e" and evs: "list_all session_event evs" by simp_all
  have ok: "timer_ok (step e s)"
    using step_session_timer [OF e Cons.prems(2)] by simp
  have "recordingTime (run evs (step e s)) =
        recordingTime (step e s) + stretch_seconds (interval (step e s)) evs"
    by (rule Cons.IH [OF evs ok])
  then show ?case
    using step_session_timer [OF e Cons.prems(2), of evs] by simp
qed

text \<open>The whole seconds of the stretches never exceed the time spent recording.\<close>

lemma stretch_seconds_bound:
  "stretch_seconds st evs * 1000 \<le>
   (case st of None \<Rightarrow> 0 | Some p \<Rightarrow> p) + recording_ms (st \<noteq> None) evs"
proof (induction evs arbitrary: st)
  case Nil
  show ?case by (simp split: option.splits)
next
  case (Cons e evs)
  show ?case
  proof (cases e)
    case Pause
    have "stretch_seconds None evs * 1000 \<le> recording_ms False evs"
      using Cons.IH [of None] by simp
    then show ?thesis using Pause by (auto split: option.splits simp: algebra_simps)
  next
    case Resume
    show ?thesis
      using Resume Cons.IH [of "Some 0"] Cons.IH [of st] by (auto split: option.splits)
  next
    case (Elapse d)
    show ?thesis
      using Elapse Cons.IH [of None] Cons.IH [of "Some (p + d)" for p]
      by (auto split: option.splits simp: algebra_simps)
  qed (use Cons.IH [of st] in \<open>simp_all split: option.splits\<close>)
qed

text \<open>The transcript of a session grows by the callers' lines, in the order of the calls.\<close>

lemma caller_fields_stamped:
  "caller_fields (obj(''id'' \<mapsto> a, ''time'' \<mapsto> b)) = caller_fields obj"
  by (simp add: caller_fields_def fun_eq_iff)

lemma step_session_transcript:
  "session_event e \<Longrightarrow>
   map caller_fields (liveTranscript (step e s)) =
     map caller_fields (liveTranscript s) @ map caller_fields (added_lines [e])"
  by (cases e)
    (simp_all add: callback_defs caller_fields_stamped split: list.splits option.splits)

lemma added_lines_Cons: "added_lines (e # evs) = added_lines [e] @ added_lines evs"
  by (cases e) simp_all

lemma run_session_transcript:
  "list_all session_event evs \<Longrightarrow>
   map caller_fields (liveTranscript (run evs s)) =
     map caller_fields (liveTranscript s) @ map caller_fields (added_lines evs)"
proof (induction evs arbitrary: s)
  case Nil
  then show ?case by simp
next
  case (Cons e evs)
  then have e: "session_event e" and evs: "list_all session_event evs" by simp_all
  show ?case
    using Cons.IH [OF evs, of "step e s"] step_session_transcript [OF e, of s]
      added_lines_Cons [of e evs]
    by simp
qed

text \<open>Calls through the callback of the latest render keep the stamps in order.\<close>

lemma stamps_ok_append:
  assumes "stamps_ok s"
    and "liveTranscript s' = liveTranscript s @ [l]"
    and "line_time l = Some (recordingTime s)"
    and "recordingTime s' = recordingTime s"
  shows "stamps_ok s'"
proof -
  from assms(1) obtain ts where ts: "map line_time (liveTranscript s) = map Some ts"
    "sorted ts" "\<forall>x \<in> set ts. x \<le> recordingTime s"
    unfolding stamps_ok_def by blast
  have "map line_time (liveTranscript s') = map Some (ts @ [recordingTime s])"
    using ts(1) assms(2,3) by simp
  moreover have "sorted (ts @ [recordingTime s])"
    using ts(2,3) by (simp add: sorted_append)
  moreover have "\<forall>x \<in> set (ts @ [recordingTime s]). x \<le> recordingTime s'"
    using ts(3) assms(4) by simp
  ultimately show ?thesis unfolding stamps_ok_def by blast
qed

lemma stamps_ok_later:
  assumes "stamps_ok s"
    and "liveTranscript s' = liveTranscript s"
    and "recordingTime s \<le> recordingTime s'"
  shows "stamps_ok s'"
proof -
  from assms(1) obtain ts where ts: "map line_time (liveTranscript s) = map Some ts"
    "sorted ts" "\<forall>x \<in> set ts. x \<le> recordingTime s"
    unfolding stamps_ok_def by blast
  have "\<forall>x \<in> set ts. x \<le> recordingTime s'"
    using ts(3) assms(3) by auto
  then show ?thesis unfolding stamps_ok_def using ts(1,2) assms(2) by auto
qed

lemma step_stamps_ok:
  assumes "session_event e" and "latest_call e" and "stamps_ok s"
  shows "stamps_ok (step e s)"
proof (cases e)
  case (AddLine obj now)
  show ?thesis
    unfolding AddLine
    by (rule stamps_ok_append
        [OF assms(3), where l = "obj(''id'' \<mapsto> Num now, ''time'' \<mapsto> Num (recordingTime s))"])
      (simp_all add: latest_addTranscriptLine_def addTranscriptLine_def line_time_def)
next
  case (Elapse d)
  show ?thesis
    unfolding Elapse
    by (rule stamps_ok_later [OF assms(3)]) (simp_all add: elapse_def split: option.splits)
qed (use assms in \<open>auto intro!: stamps_ok_later [OF assms(3)]
       simp: callback_defs split: option.splits list.splits\<close>)

lemma run_stamps_ok:
  "list_all session_event evs \<Longrightarrow> list_all latest_call evs \<Longrightarrow> stamps_ok s \<Longrightarrow>
   stamps_ok (run evs s)"
proof (induction evs arbitrary: s)
  case Nil
  then show ?case by simp
next
  case (Cons e evs)
  then show ?case using step_stamps_ok [of e s] by simp
qed

lemma foldl_duration:
  "foldl (\<lambda>acc m. acc + (case duration m of None \<Rightarrow> 0 | Some d \<Rightarrow> if d = 0 then 0 else d)) a ms =
   a + sum_list (map (\<lambda>m. case duration m of None \<Rightarrow> 0 | Some d \<Rightarrow> d) ms)"
  by (induction ms arbitrary: a) (auto split: option.splits)

section \<open>Starting while a session is active\<close>

text \<open>
  C1 (as amended). \<open>startRecording\<close> has no precondition and cannot fail. In every state,
  and so also while a session is active, it returns the new meeting in progress and
  replaces the session by it: the current meeting is the new one, the recording runs, the
  elapsed seconds are 0, the live transcript is empty and the participants are those of
  the new meeting. The stored meetings, the storage entry and the pending timeouts are
  left as they were.
\<close>

theorem start_replaces_session:
  "currentMeeting (snd (startRecording c i t s)) = Some (fst (startRecording c i t s)) \<and>
   isRecording (snd (startRecording c i t s)) \<and>
   recordingTime (snd (startRecording c i t s)) = 0 \<and>
   liveTranscript (snd (startRecording c i t s)) = [] \<and>
   participants (snd (startRecording c i t s)) = mparticipants (fst (startRecording c i t s)) \<and>
   meetings (snd (startRecording c i t s)) = meetings s \<and>
   storage (snd (startRecording c i t s)) = storage s \<and>
   timers (snd (startRecording c i t s)) = timers s \<and>
   mid (fst (startRecording c i t s)) = ''meeting_'' @ show_nat i \<and>
   startTime (fst (startRecording c i t s)) = t \<and>
   status (fst (startRecording c i t s)) = ''recording''"
  by (simp add: startRecording_def Let_def)

text \<open>
  The claim as the specification states it fails: a session started at instant 1000 is
  two seconds in and has one line; a second \<open>startRecording\<close> returns a meeting started
  at 3000, which is now the current one, and the elapsed seconds and the transcript of
  the first session are gone.
\<close>

theorem start_while_active_counterexample:
  "currentMeeting recording_example \<noteq> None \<and>
   recordingTime recording_example = 2 \<and>
   length (liveTranscript recording_example) = 1 \<and>
   map_option startTime (currentMeeting recording_example) = Some 1000 \<and>
   startTime (fst (startRecording standup_config 3000 3000 recording_example)) = 3000 \<and>
   map_option startTime
     (currentMeeting (snd (startRecording standup_config 3000 3000 recording_example))) =
     Some 3000 \<and>
   recordingTime (snd (startRecording standup_config 3000 3000 recording_example)) = 0 \<and>
   liveTranscript (snd (startRecording standup_config 3000 3000 recording_example)) = []"
  by (simp add: example_defs callback_defs Let_def)

section \<open>Attaching an analysis\<close>

text \<open>
  C2 (as amended). \<open>generateAnalysis\<close> resolves to the fixed analysis and sets it on
  every stored meeting with the given id; every other field of every stored meeting, the
  status among them, is left as it was. The status becomes \<^verbatim>\<open>completed\<close> by the separate
  call \<open>updateMeetingStatus id ''completed''\<close> (the one the timeout of \<open>stopRecording\<close>
  makes), which keeps the analysis.
\<close>

theorem generateAnalysis_sets_analysis_only:
  "fst (generateAnalysis i s) = analysisResult \<and>
   map analysis (meetings (snd (generateAnalysis i s))) =
     map (\<lambda>m. if mid m = i then Some analysisResult else analysis m) (meetings s) \<and>
   map (\<lambda>m. m\<lparr>analysis := None\<rparr>) (meetings (snd (generateAnalysis i s))) =
     map (\<lambda>m. m\<lparr>analysis := None\<rparr>) (meetings s) \<and>
   map status (meetings (snd (generateAnalysis i s))) = map status (meetings s) \<and>
   map status (meetings (updateMeetingStatus i ''completed'' (snd (generateAnalysis i s)))) =
     map (\<lambda>m. if mid m = i then ''completed'' else status m) (meetings s) \<and>
   map analysis (meetings (updateMeetingStatus i ''completed'' (snd (generateAnalysis i s)))) =
     map analysis (meetings (snd (generateAnalysis i s)))"
  by (simp add: generateAnalysis_def updateMeetingStatus_def comp_def)

text \<open>
  The claim as stated fails: the one stored meeting is \<^verbatim>\<open>processing\<close>; after
  \<open>generateAnalysis\<close> for its id it has the analysis and is still \<^verbatim>\<open>processing\<close>.
\<close>

theorem analysis_without_status_counterexample:
  "map (\<lambda>m. (mid m, status m, analysis m)) (meetings stored_example) =
     [(''meeting_1000'', ''processing'', None)] \<and>
   map (\<lambda>m. (mid m, status m, analysis m))
     (meetings (snd (generateAnalysis ''meeting_1000'' stored_example))) =
     [(''meeting_1000'', ''processing'', Some analysisResult)]"
  by (simp add: example_defs callback_defs Let_def show_nat_1000)

section \<open>The duration of a stopped session\<close>

text \<open>
  C3 (as amended). A session is started while no recording is running and then sees any
  sequence of session events: pauses, resumes, time that passes, transcript lines,
  speaking ticks and changes of the stored collection. Stopping it through the callback
  of the latest render yields a meeting (not \<^verbatim>\<open>null\<close>) whose \<^verbatim>\<open>duration\<close> is the number
  of firings of the 1000 ms interval during the session. The interval is created anew at
  the start and at every resume and is cleared at every pause, so this number is the sum,
  over the uninterrupted stretches of recording, of the whole seconds of each stretch:
  time spent paused does not count, and what a stretch has beyond its whole seconds is
  dropped. The duration therefore never exceeds the whole seconds spent recording and
  can be less. A stop through the callback of an earlier render that had a meeting
  returns the elapsed seconds which that render had captured. The value is fixed at the
  stop: the meeting at the head of the collection carries it, and the callbacks that
  rewrite a stored meeting (\<open>updateMeetingStatus\<close>, \<open>generateAnalysis\<close>) change no
  duration.
\<close>

theorem stop_duration_counts_interval_firings:
  "list_all session_event evs \<Longrightarrow> \<not> isRecording s \<Longrightarrow>
   \<exists>m. fst (latest_stopRecording e c (run evs (step (Start cfg i t) s))) = Some m \<and>
       duration m = Some (stretch_seconds (Some 0) evs) \<and>
       stretch_seconds (Some 0) evs \<le> recording_ms True evs div 1000 \<and>
       mid m = mid (fst (startRecording cfg i t s)) \<and>
       hd (meetings (snd (latest_stopRecording e c (run evs (step (Start cfg i t) s))))) = m \<and>
       map_option duration (fst (stopRecording (Some cur) rt lt e c u)) = Some (Some rt) \<and>
       map duration (meetings (updateMeetingStatus j st u)) = map duration (meetings u) \<and>
       map duration (meetings (snd (generateAnalysis j u))) = map duration (meetings u)"
proof -
  assume evs: "list_all session_event evs" and idle: "\<not> isRecording s"
  let ?s0 = "step (Start cfg i t) s"
  have s0: "currentMeeting ?s0 = Some (fst (startRecording cfg i t s))"
    "recordingTime ?s0 = 0" "interval ?s0 = Some 0" "timer_ok ?s0"
    using idle by (simp_all add: startRecording_def timerEffect_def timer_ok_def Let_def)
  have cur: "currentMeeting (run evs ?s0) = Some (fst (startRecording cfg i t s))"
    using run_session_current [OF evs, of ?s0] s0(1) by simp
  have tm: "recordingTime (run evs ?s0) = stretch_seconds (Some 0) evs"
    using run_session_time [OF evs s0(4)] s0(2,3) by simp
  have bound: "stretch_seconds (Some 0) evs \<le> recording_ms True evs div 1000"
    using stretch_seconds_bound [of "Some 0" evs] by simp
  have old: "map_option duration (fst (stopRecording (Some cur) rt lt e c u)) = Some (Some rt)"
    by (simp add: stopRecording_def Let_def)
  have upd: "map duration (meetings (updateMeetingStatus j st u)) = map duration (meetings u)"
    by (simp add: updateMeetingStatus_def comp_def)
  have ana: "map duration (meetings (snd (generateAnalysis j u))) = map duration (meetings u)"
    by (simp add: generateAnalysis_def comp_def)
  show ?thesis
    using cur tm bound old upd ana
    by (simp add: latest_stopRecording_def stopRecording_def Let_def)
qed

theorem stop_duration_counts_interval_firings_witness:
  "list_all session_event session_example \<and> \<not> isRecording (initial_state None) \<and>
   (\<exists>m. fst (latest_stopRecording 9000 9000
             (run session_example (step (Start standup_config 1000 1000)
                (initial_state None)))) = Some m \<and>
        duration m = Some 3)"
proof -
  have h: "list_all session_event session_example"
    by (simp add: session_example_def)
  have i: "\<not> isRecording (initial_state None)"
    by (simp add: initial_state_def)
  have n: "stretch_seconds (Some 0) session_example = 3"
    by (simp add: session_example_def)
  show ?thesis
    using h i n
      stop_duration_counts_interval_firings [OF h i, of 9000 9000 standup_config 1000 1000]
    by auto
qed

text \<open>
  The claim as stated fails. A session records three times 900 ms, with a pause in
  between: 2700 ms, two whole seconds, in the recording state; the interval never fires
  and the meeting has the duration 0. And a stop through the callback of the render that
  followed the start, made when the session is two seconds in, returns the duration 0.
\<close>

theorem partial_seconds_lost_counterexample:
  "list_all session_event interrupted_example \<and>
   recording_ms True interrupted_example div 1000 = 2 \<and>
   map_option duration
     (fst (latest_stopRecording 9000 9000 (run interrupted_example started_example))) =
     Some (Some 0) \<and>
   recordingTime recording_example = 2 \<and>
   map_option duration
     (fst (stopRecording (currentMeeting started_example) (recordingTime started_example)
        (liveTranscript started_example) 9000 9000 recording_example)) =
     Some (Some 0)"
  by (simp add: example_defs callback_defs Let_def)

section \<open>Appending transcript lines\<close>

text \<open>
  C4 (as amended). \<open>addTranscriptLine\<close> has no precondition and cannot fail. In every
  state, with a session or without one, it appends exactly one line at the end of the
  live transcript, keeps the lines that were there, and changes no other cell of the
  state. The line is stamped with the elapsed seconds that the callback captured at the
  render that created it; for a call through the callback of the latest render these are
  the current elapsed seconds.
\<close>

theorem addTranscriptLine_appends:
  "length (liveTranscript (addTranscriptLine rt obj now s)) = length (liveTranscript s) + 1 \<and>
   butlast (liveTranscript (addTranscriptLine rt obj now s)) = liveTranscript s \<and>
   last (liveTranscript (addTranscriptLine rt obj now s)) ''time'' = Some (Num rt) \<and>
   (addTranscriptLine rt obj now s)\<lparr>liveTranscript := liveTranscript s\<rparr> = s \<and>
   last (liveTranscript (latest_addTranscriptLine obj now s)) ''time'' =
     Some (Num (recordingTime s))"
  by (simp add: addTranscriptLine_def latest_addTranscriptLine_def)

text \<open>
  The claim as stated fails. In the initial state there is no current meeting and the
  transcript is empty; \<open>addTranscriptLine\<close> appends the line all the same. And with a
  session two seconds in, a call through the callback of the render that followed the
  start appends a line with the time 0.
\<close>

theorem add_line_without_session_counterexample:
  "currentMeeting (initial_state None) = None \<and>
   liveTranscript (initial_state None) = [] \<and>
   map (\<lambda>l. (l ''speaker'', l ''text'', l ''time''))
     (liveTranscript (latest_addTranscriptLine hi_line 1500 (initial_state None))) =
     [(Some (Str ''A''), Some (Str ''hi''), Some (Num 0))] \<and>
   recordingTime started_example = 0 \<and>
   recordingTime recording_example = 2 \<and>
   last (liveTranscript
      (addTranscriptLine (recordingTime started_example) hi_line 4000 recording_example))
     ''time'' = Some (Num 0)"
  by (simp add: example_defs callback_defs Let_def)

section \<open>Persistence of the collection\<close>

text \<open>
  C5. The code at the input at which the claim fails. The storage entry holds the one
  stored meeting. Deleting that meeting empties the collection, and the effect on
  \<^verbatim>\<open>[meetings]\<close> writes nothing: the storage entry still holds the meeting, and a page
  load over that entry has the deleted meeting again. Where the collection stays
  non-empty the same path does write: after deleting one of two stored meetings the
  storage entry holds the collection that is left.
\<close>

theorem delete_last_meeting_stays_in_storage:
  "map mid (meetings stored_example) = [''meeting_1000''] \<and>
   storage stored_example = Some (Json (meetings stored_example)) \<and>
   meetings (step (Delete ''meeting_1000'') stored_example) = [] \<and>
   storage (step (Delete ''meeting_1000'') stored_example) =
     Some (Json (meetings stored_example)) \<and>
   map mid (meetings (mount (storage (step (Delete ''meeting_1000'') stored_example)))) =
     [''meeting_1000''] \<and>
   map mid (meetings two_stored_example) = [''meeting_5000'', ''meeting_1000''] \<and>
   map mid (meetings (step (Delete ''meeting_1000'') two_stored_example)) =
     [''meeting_5000''] \<and>
   storage (step (Delete ''meeting_1000'') two_stored_example) =
     Some (Json (meetings (step (Delete ''meeting_1000'') two_stored_example)))"
  by (simp add: example_defs callback_defs Let_def show_nat_1000 show_nat_5000)

section \<open>Committing a meeting\<close>

text \<open>
  C6 (as amended). With a session active, \<open>stopRecording\<close> returns the finished meeting,
  with the id of the session and the status \<^verbatim>\<open>processing\<close>, and the collection after it
  is that meeting followed by the meetings stored before, in their order. There is no
  test for an id that is already stored: the commit cannot fail, and a meeting with the
  same id stays in the collection behind the new one.
\<close>

theorem stop_commits_at_head:
  "\<exists>m. fst (stopRecording (Some cur) rt lt e c s) = Some m \<and>
       meetings (snd (stopRecording (Some cur) rt lt e c s)) = m # meetings s \<and>
       mid m = mid cur \<and> status m = ''processing''"
  by (simp add: stopRecording_def Let_def)

theorem stop_commits_at_head_witness:
  "currentMeeting restarted_example =
     Some (fst (startRecording standup_config 1000 1000 (initial_state None))) \<and>
   (\<exists>m. fst (latest_stopRecording 3000 3000 restarted_example) = Some m \<and>
        meetings (snd (latest_stopRecording 3000 3000 restarted_example)) =
          m # meetings restarted_example \<and>
        mid m = mid (fst (startRecording standup_config 1000 1000 (initial_state None))) \<and>
        status m = ''processing'')"
proof -
  have h: "currentMeeting restarted_example =
      Some (fst (startRecording standup_config 1000 1000 (initial_state None)))"
    by (simp add: example_defs callback_defs Let_def)
  show ?thesis
    using h
      stop_commits_at_head [of "fst (startRecording standup_config 1000 1000 (initial_state None))"
        "recordingTime restarted_example" "liveTranscript restarted_example" 3000 3000
        restarted_example]
    by (simp add: latest_stopRecording_def)
qed

text \<open>
  The claim as stated fails: a meeting with the id \<^verbatim>\<open>meeting_1000\<close> is stored and the
  session has the same id; \<open>stopRecording\<close> returns the meeting, and the collection then
  holds the id twice.
\<close>

theorem duplicate_id_commit_counterexample:
  "map mid (meetings restarted_example) = [''meeting_1000''] \<and>
   map_option mid (currentMeeting restarted_example) = Some ''meeting_1000'' \<and>
   map_option mid (fst (latest_stopRecording 3000 3000 restarted_example)) =
     Some ''meeting_1000'' \<and>
   map mid (meetings (snd (latest_stopRecording 3000 3000 restarted_example))) =
     [''meeting_1000'', ''meeting_1000'']"
  by (simp add: example_defs callback_defs Let_def show_nat_1000)

section \<open>The statistics\<close>

text \<open>
  C7. For every collection, the empty one included: \<^verbatim>\<open>total\<close> is the number of stored
  meetings; \<^verbatim>\<open>completed\<close> is the number of positions whose meeting has the status
  \<^verbatim>\<open>completed\<close>; \<^verbatim>\<open>totalDuration\<close> is the sum of the durations (a meeting without one
  contributes 0); \<^verbatim>\<open>thisMonth\<close> is the number of positions whose meeting has a
  \<^verbatim>\<open>createdAt\<close> in the month and the year of the instant of evaluation. On the empty
  collection all four are 0.
\<close>

theorem stats_counts:
  "total (stats getMonth getFullYear now ms) = length ms \<and>
   completed (stats getMonth getFullYear now ms) =
     card {k. k < length ms \<and> status (ms ! k) = ''completed''} \<and>
   totalDuration (stats getMonth getFullYear now ms) =
     sum_list (map (\<lambda>m. case duration m of None \<Rightarrow> 0 | Some d \<Rightarrow> d) ms) \<and>
   thisMonth (stats getMonth getFullYear now ms) =
     card {k. k < length ms \<and>
              (\<exists>c. createdAt (ms ! k) = Some c \<and> getMonth c = getMonth now \<and>
                   getFullYear c = getFullYear now)} \<and>
   stats getMonth getFullYear now [] =
     \<lparr>total = 0, thisMonth = 0, completed = 0, totalDuration = 0\<rparr>"
proof -
  have m: "(\<lambda>m. case createdAt m of None \<Rightarrow> False
                | Some c \<Rightarrow> getMonth c = getMonth now \<and> getFullYear c = getFullYear now) =
           (\<lambda>m. \<exists>c. createdAt m = Some c \<and> getMonth c = getMonth now \<and>
                   getFullYear c = getFullYear now)"
    by (auto simp: fun_eq_iff split: option.splits)
  show ?thesis
    unfolding stats_def m by (simp add: foldl_duration length_filter_conv_card)
qed

section \<open>The order of the transcript\<close>

text \<open>
  C8 (as amended). A session is started in any state and then sees any sequence of
  session events, among them the calls of \<open>addTranscriptLine\<close>, through the callback of
  the latest render or of an earlier one. Its live transcript then holds one line for
  each call, in the order of the calls (each line is the caller's object, up to the two
  fields the call sets). When every call goes through the callback of the latest render,
  the elapsed seconds on the lines are numbers that never decrease along the transcript.
  A call through the callback of an earlier render stamps the seconds which that render
  had captured, and these can be less than those of the line before.
\<close>

theorem transcript_in_call_order:
  "list_all session_event evs \<Longrightarrow>
   map caller_fields (liveTranscript (run evs (step (Start cfg i t) s))) =
     map caller_fields (added_lines evs) \<and>
   (list_all latest_call evs \<longrightarrow>
      (\<exists>ts. map line_time (liveTranscript (run evs (step (Start cfg i t) s))) = map Some ts \<and>
            sorted ts))"
proof -
  assume evs: "list_all session_event evs"
  let ?s0 = "step (Start cfg i t) s"
  have empty: "liveTranscript ?s0 = []"
    by (simp add: startRecording_def timerEffect_def Let_def)
  have order: "map caller_fields (liveTranscript (run evs ?s0)) =
      map caller_fields (added_lines evs)"
    using run_session_transcript [OF evs, of ?s0] empty by simp
  have "stamps_ok (run evs ?s0)" if latest: "list_all latest_call evs"
  proof -
    have "stamps_ok ?s0"
      unfolding stamps_ok_def using empty by simp
    then show ?thesis by (rule run_stamps_ok [OF evs latest])
  qed
  then have "list_all latest_call evs \<longrightarrow>
      (\<exists>ts. map line_time (liveTranscript (run evs ?s0)) = map Some ts \<and> sorted ts)"
    unfolding stamps_ok_def by blast
  with order show ?thesis by blast
qed

theorem transcript_in_call_order_witness:
  "list_all session_event session_example \<and> list_all latest_call session_example \<and>
   map caller_fields
     (liveTranscript (run session_example
        (step (Start standup_config 1000 1000) (initial_state None)))) =
     map caller_fields [hi_line, caller_line, hi_line] \<and>
   (\<exists>ts. map line_time
           (liveTranscript (run session_example
              (step (Start standup_config 1000 1000) (initial_state None)))) =
           map Some ts \<and>
         sorted ts)"
proof -
  have h: "list_all session_event session_example"
    by (simp add: session_example_def)
  have l: "list_all latest_call session_example"
    by (simp add: session_example_def)
  have a: "added_lines session_example = [hi_line, caller_line, hi_line]"
    by (simp add: session_example_def)
  show ?thesis
    using h l
      transcript_in_call_order [OF h, of standup_config 1000 1000 "initial_state None"]
    unfolding a by blast
qed

text \<open>
  The claim as stated fails: lines are added at the seconds 0 and 2 through the callback
  of the latest render, and then a third through the callback of the render that
  followed the start. The stamps along the transcript are 0, 2, 0.
\<close>

theorem old_callback_stamp_counterexample:
  "list_all session_event old_callback_example \<and>
   map line_time (liveTranscript (run old_callback_example started_example)) =
     [Some 0, Some 2, Some 0] \<and>
   \<not> sorted [0, 2, 0 :: nat]"
  by (simp add: example_defs callback_defs line_time_def Let_def)

section \<open>The stamps of a transcript line\<close>

text \<open>
  C9 (as amended). The line that \<open>addTranscriptLine\<close> appends has its \<^verbatim>\<open>time\<close> field set
  to the elapsed seconds that the callback captured at the render that created it (the
  current elapsed seconds for a call through the callback of the latest render) and its
  \<^verbatim>\<open>id\<close> field set to the value of \<^verbatim>\<open>Date.now()\<close> at the call, whatever \<^verbatim>\<open>time\<close> and
  \<^verbatim>\<open>id\<close> the caller supplied. Every other field of the caller's object is carried over
  unchanged: \<^verbatim>\<open>speaker\<close> and \<^verbatim>\<open>text\<close>, and also a \<^verbatim>\<open>timestamp\<close> field, which is not
  overridden.
\<close>

theorem addTranscriptLine_stamps:
  "last (liveTranscript (addTranscriptLine rt obj now s)) ''time'' = Some (Num rt) \<and>
   last (liveTranscript (latest_addTranscriptLine obj now s)) ''time'' =
     Some (Num (recordingTime s)) \<and>
   last (liveTranscript (addTranscriptLine rt obj now s)) ''id'' = Some (Num now) \<and>
   last (liveTranscript (addTranscriptLine rt obj now s)) ''speaker'' = obj ''speaker'' \<and>
   last (liveTranscript (addTranscriptLine rt obj now s)) ''text'' = obj ''text'' \<and>
   last (liveTranscript (addTranscriptLine rt obj now s)) ''timestamp'' = obj ''timestamp'' \<and>
   caller_fields (last (liveTranscript (addTranscriptLine rt obj now s))) = caller_fields obj"
  by (simp add: addTranscriptLine_def latest_addTranscriptLine_def caller_fields_def fun_eq_iff)

text \<open>
  The claim as stated fails: two seconds into the session, two lines are added in the
  same millisecond 2000 by a caller that supplies \<^verbatim>\<open>timestamp: 99\<close>. Both appended lines
  keep the timestamp 99 beside the time 2, and both have the id 2000. A third line,
  added through the callback of the render that followed the start, has the time 0.
\<close>

theorem caller_timestamp_kept_counterexample:
  "recordingTime recording_example = 2 \<and>
   map (\<lambda>l. (l ''timestamp'', l ''id'', l ''time''))
     (drop 1 (liveTranscript
        (run [AddLine caller_line 2000, AddLine caller_line 2000,
              AddLineOld (recordingTime started_example) caller_line 2500]
           recording_example))) =
     [(Some (Num 99), Some (Num 2000), Some (Num 2)),
      (Some (Num 99), Some (Num 2000), Some (Num 2)),
      (Some (Num 99), Some (Num 2500), Some (Num 0))]"
  by (simp add: example_defs callback_defs Let_def)

section \<open>Pausing and resuming\<close>

text \<open>
  C10. In every state, \<open>pauseRecording\<close> and \<open>resumeRecording\<close> change the running flag
  and nothing else: the meeting in progress, the elapsed seconds, the live transcript,
  the participants and the stored meetings (with the storage entry and the pending
  timeouts) are those of the state before the call.
\<close>

theorem pause_resume_frame:
  "pauseRecording s = s\<lparr>isRecording := False\<rparr> \<and>
   resumeRecording s = s\<lparr>isRecording := True\<rparr> \<and>
   (let p = pauseRecording s; r = resumeRecording s in
      currentMeeting p = currentMeeting s \<and> currentMeeting r = currentMeeting s \<and>
      recordingTime p = recordingTime s \<and> recordingTime r = recordingTime s \<and>
      liveTranscript p = liveTranscript s \<and> liveTranscript r = liveTranscript s \<and>
      participants p = participants s \<and> participants r = participants s \<and>
      meetings p = meetings s \<and> meetings r = meetings s \<and>
      storage p = storage s \<and> storage r = storage s \<and>
      timers p = timers s \<and> timers r = timers s \<and>
      \<not> isRecording p \<and> isRecording r \<and>
      recordingTime (tick p) = recordingTime s \<and>
      recordingTime (tick r) = recordingTime s + 1)"
  by (simp add: pauseRecording_def resumeRecording_def tick_def Let_def)

end
